theory Spec2Isabelle
  imports Complex_Main "HOL-Library.Word"
begin

section \<open>Machine types and undefined behaviour\<close>

text \<open>
  \<^verbatim>\<open>size_t\<close> is an unsigned 64-bit word and \<^verbatim>\<open>counter_t\<close> is the default
  \<^verbatim>\<open>int64_t\<close>: a 64-bit word whose arithmetic wraps, read through \<open>sint\<close> and
  compared with the signed order \<open><s\<close>.  The result type \<^verbatim>\<open>g_ret_t\<close> of
  \<^verbatim>\<open>evaluate\<close> is a template parameter and stays a parameter here.
\<close>

type_synonym size_t = "64 word"
type_synonym counter_t = "64 word"

text \<open>
  The C++ has no exceptions of its own; what can go wrong is undefined behaviour: an index
  past the end of a vector, the top of an empty heap, a remainder by zero.
\<close>

datatype error = OutOfBounds | EmptyTop | DivByZero

section \<open>Collaborators that are not part of the two headers\<close>

text \<open>
  \<^verbatim>\<open>count_sketch.h\<close>, \<^verbatim>\<open>hash_manager.h\<close>, \<^verbatim>\<open>priority_queue.h\<close> and
  \<^verbatim>\<open>atomic.h\<close> are included but not given.  The Count-Sketch and the arithmetic on
  \<^verbatim>\<open>double\<close> are parameters of the model, collected in one record: \<open>'sk\<close> is the type
  of a Count-Sketch and \<open>'d\<close> the type of a \<^verbatim>\<open>double\<close>.  Every theorem below that
  mentions an \<open>env\<close> holds for all of them.

  \<^item> \<open>cs_new t b\<close> is \<^verbatim>\<open>count_sketch<counter_t>(t, b)\<close>, \<open>t\<close> the depth and
    \<open>b\<close> the width, as the constructors' comments name them;
  \<^item> \<open>cs_update_and_estimate\<close>, \<open>cs_estimate\<close>, \<open>cs_storage_size\<close> are the
    member functions of the same names;
  \<^item> \<open>cs_error_margin_to_width\<close>, \<open>cs_perror_to_depth\<close> are the static helpers;
  \<^item> \<open>d_of_counter\<close> is the conversion of an \<^verbatim>\<open>int64_t\<close> to \<^verbatim>\<open>double\<close>,
    \<open>d_sqrt\<close> is \<^verbatim>\<open>std::sqrt\<close>, \<open>d_mult\<close> and \<open>d_less\<close> are \<^verbatim>\<open>*\<close> and
    \<^verbatim>\<open><\<close> on \<^verbatim>\<open>double\<close>;
  \<^item> \<open>empty_key_hash\<close> is \<^verbatim>\<open>byte_string().hash()\<close>;
  \<^item> \<open>sizeof_type_size\<close> is the constant \<^verbatim>\<open>sizeof(column.type().size)\<close>: the
    size in bytes of the static type of the member \<^verbatim>\<open>size\<close>, whose declaration is not
    given (8 for a \<^verbatim>\<open>size_t\<close> member on a 64-bit platform).
\<close>

record ('sk, 'd) env =
  cs_new :: "size_t \<Rightarrow> size_t \<Rightarrow> 'sk"
  cs_update_and_estimate :: "'sk \<Rightarrow> size_t \<Rightarrow> counter_t \<times> 'sk"
  cs_estimate :: "'sk \<Rightarrow> size_t \<Rightarrow> counter_t"
  cs_storage_size :: "'sk \<Rightarrow> size_t"
  cs_error_margin_to_width :: "'d \<Rightarrow> size_t"
  cs_perror_to_depth :: "'d \<Rightarrow> size_t"
  d_of_counter :: "counter_t \<Rightarrow> 'd"
  d_sqrt :: "'d \<Rightarrow> 'd"
  d_mult :: "'d \<Rightarrow> 'd \<Rightarrow> 'd"
  d_less :: "'d \<Rightarrow> 'd \<Rightarrow> bool"
  empty_key_hash :: size_t
  sizeof_type_size :: size_t

subsection \<open>The heavy-hitter heap\<close>

text \<open>
  An entry of \<^verbatim>\<open>heavy_hitter_set<size_t, counter_t>\<close>: the fields \<^verbatim>\<open>key_\<close> and
  \<^verbatim>\<open>priority_\<close> that \<^verbatim>\<open>evaluate\<close> and \<^verbatim>\<open>update_hh_pq\<close> read.
\<close>

record hh_entry =
  e_key :: size_t
  e_priority :: counter_t

type_synonym heavy_hitter_set_t = "hh_entry list"

text \<open>
  Modelled from the spec: the operations of \<^verbatim>\<open>heavy_hitter_set\<close>
  (\<^verbatim>\<open>priority_queue.h\<close> is missing).  The specification gives a min-heap on the count
  with \<open>size()\<close>, \<open>remove_if_exists(k)\<close> (no-op if absent), \<open>pushp(k, c)\<close> (inserts),
  \<open>top()\<close> (reads the minimum), \<open>pop()\<close> (removes the minimum) and iteration over all
  (key, count) pairs.  The heap is the list of its entries; the order of the list is the
  order of iteration, which the specification leaves open.  The minimum is taken in the
  signed order; among equal counts the first entry is chosen.  \<open>top()\<close> is \<open>pq_top\<close>
  here; of an empty heap it has no value.
\<close>

definition remove_if_exists :: "heavy_hitter_set_t \<Rightarrow> size_t \<Rightarrow> heavy_hitter_set_t" where
  "remove_if_exists h k = filter (\<lambda>e. e_key e \<noteq> k) h"

definition pushp :: "heavy_hitter_set_t \<Rightarrow> size_t \<Rightarrow> counter_t \<Rightarrow> heavy_hitter_set_t" where
  "pushp h k c = h @ [\<lparr>e_key = k, e_priority = c\<rparr>]"

fun min_entry :: "hh_entry \<Rightarrow> heavy_hitter_set_t \<Rightarrow> hh_entry" where
  "min_entry m [] = m"
| "min_entry m (e # es) = min_entry (if e_priority e <s e_priority m then e else m) es"

definition pq_top :: "heavy_hitter_set_t \<Rightarrow> hh_entry option" where
  "pq_top h = (case h of [] \<Rightarrow> None | e # es \<Rightarrow> Some (min_entry e es))"

definition pop :: "heavy_hitter_set_t \<Rightarrow> heavy_hitter_set_t" where
  "pop h = (case pq_top h of None \<Rightarrow> h | Some m \<Rightarrow> remove1 m h)"

section \<open>The substream summary\<close>

text \<open>
  The summary of a layer is the class \<^verbatim>\<open>confluo_substream_summary\<close>.  The second
  header, \<^verbatim>\<open>stream_summary.h\<close>, holds the class \<^verbatim>\<open>stream_summary<T, counter_t>\<close>,
  which the universal sketch does not use: it has no threshold, its \<^verbatim>\<open>update\<close> takes
  an increment and never writes its member \<^verbatim>\<open>l2_squared_\<close>, and its heap is a
  \<^verbatim>\<open>pq\<close> with an \<^verbatim>\<open>update(key, count, bool)\<close> that is given nowhere.  It is not
  part of this model.
\<close>

text \<open>
  The fields of \<^verbatim>\<open>confluo_substream_summary\<close>, in the order of their declaration.
  \<open>hh_hash\<close> is the \<^verbatim>\<open>apply<size_t>\<close> of the summary's own
  \<^verbatim>\<open>pairwise_indep_hash\<close>; \<open>l2_squared_acc\<close> is the member \<^verbatim>\<open>l2_squared_\<close>
  (a record field \<open>l2_squared\<close> would take the name of the function
  \<^verbatim>\<open>l2_squared_update\<close> for its update).
\<close>

record ('sk, 'd) confluo_substream_summary =
  hh_threshold :: 'd
  num_hh :: size_t
  l2_squared_acc :: counter_t
  sketch :: 'sk
  heavy_hitters :: "size_t list"
  hhs_precise :: heavy_hitter_set_t
  hh_hash :: "size_t \<Rightarrow> size_t"
  use_precise_hh :: bool

text \<open>
  The constructor \<^verbatim>\<open>confluo_substream_summary(t, b, k, a, precise)\<close>.  The value of
  \<^verbatim>\<open>pairwise_indep_hash::generate_random()\<close> is the extra argument \<open>hhh\<close>.  The
  vector of \<open>k\<close> atomic slots is value-initialised, so every slot starts at 0.
\<close>

definition new_substream_summary ::
  "('sk, 'd) env \<Rightarrow> size_t \<Rightarrow> size_t \<Rightarrow> size_t \<Rightarrow> 'd \<Rightarrow> bool \<Rightarrow> (size_t \<Rightarrow> size_t)
     \<Rightarrow> ('sk, 'd) confluo_substream_summary" where
  "new_substream_summary env t b k a precise hhh =
     \<lparr>hh_threshold = a, num_hh = k, l2_squared_acc = 0, sketch = cs_new env t b,
      heavy_hitters = replicate (unat k) 0, hhs_precise = [], hh_hash = hhh,
      use_precise_hh = precise\<rparr>"

definition l2_squared_update :: "counter_t \<Rightarrow> counter_t" where
  "l2_squared_update old_count = 2 * old_count + 1"

text \<open>
  \<^verbatim>\<open>update_hh_pq(key_hash, count, l2)\<close>.  \<^verbatim>\<open>count < hh_threshold_ * l2\<close> converts
  the count to \<^verbatim>\<open>double\<close>; \<^verbatim>\<open>sketch_.estimate(head) < count\<close> compares two
  \<^verbatim>\<open>int64_t\<close>.
\<close>

definition update_hh_pq ::
  "('sk, 'd) env \<Rightarrow> ('sk, 'd) confluo_substream_summary \<Rightarrow> size_t \<Rightarrow> counter_t \<Rightarrow> 'd
     \<Rightarrow> error + ('sk, 'd) confluo_substream_summary" where
  "update_hh_pq env s key_hash count l2 =
     (if d_less env (d_of_counter env count) (d_mult env (hh_threshold s) l2) then Inr s
      else if length (hhs_precise s) < unat (num_hh s) then
        Inr (s\<lparr>hhs_precise := pushp (remove_if_exists (hhs_precise s) key_hash) key_hash count\<rparr>)
      else
        (case pq_top (hhs_precise s) of
           None \<Rightarrow> Inl EmptyTop
         | Some head \<Rightarrow>
             if cs_estimate env (sketch s) (e_key head) <s count then
               Inr (s\<lparr>hhs_precise :=
                      pushp (remove_if_exists (pop (hhs_precise s)) key_hash) key_hash count\<rparr>)
             else Inr s))"

text \<open>
  \<^verbatim>\<open>update_hh_approx(key_hash, count, l2)\<close>, run by one thread: the compare-and-swap
  finds the slot as it was just loaded and succeeds, so the loop body runs once.  The
  remainder by \<^verbatim>\<open>heavy_hitters_.size()\<close> is undefined when there is no slot.
\<close>

definition update_hh_approx ::
  "('sk, 'd) env \<Rightarrow> ('sk, 'd) confluo_substream_summary \<Rightarrow> size_t \<Rightarrow> counter_t \<Rightarrow> 'd
     \<Rightarrow> error + ('sk, 'd) confluo_substream_summary" where
  "update_hh_approx env s key_hash count l2 =
     (if d_less env (d_of_counter env count) (d_mult env (hh_threshold s) l2) then Inr s
      else if heavy_hitters s = [] then Inl DivByZero
      else
        (let idx = unat (hh_hash s key_hash) mod length (heavy_hitters s);
             prev_key_hash = heavy_hitters s ! idx
         in if prev_key_hash = key_hash then Inr s
            else
              (let prev_count = cs_estimate env (sketch s) prev_key_hash
               in if count <s prev_count then Inr s
                  else Inr (s\<lparr>heavy_hitters := (heavy_hitters s)[idx := key_hash]\<rparr>))))"

text \<open>
  \<^verbatim>\<open>confluo_substream_summary::update(key_hash)\<close>.  The fetch-and-add returns the old
  value of the accumulator and stores the sum; \<^verbatim>\<open>old_l2_sq + update\<close> is an
  \<^verbatim>\<open>int64_t\<close> sum that is converted to \<^verbatim>\<open>double\<close> for \<^verbatim>\<open>std::sqrt\<close>.
\<close>

definition update_substream ::
  "('sk, 'd) env \<Rightarrow> ('sk, 'd) confluo_substream_summary \<Rightarrow> size_t
     \<Rightarrow> error + ('sk, 'd) confluo_substream_summary" where
  "update_substream env s key_hash =
     (let (old_count, sk') = cs_update_and_estimate env (sketch s) key_hash;
          upd = l2_squared_update old_count;
          old_l2_sq = l2_squared_acc s;
          s' = s\<lparr>sketch := sk', l2_squared_acc := old_l2_sq + upd\<rparr>;
          new_l2 = d_sqrt env (d_of_counter env (old_l2_sq + upd))
      in if use_precise_hh s' then update_hh_pq env s' key_hash (old_count + 1) new_l2
         else update_hh_approx env s' key_hash (old_count + 1) new_l2)"

text \<open>\<^verbatim>\<open>confluo_substream_summary::storage_size()\<close>.\<close>

definition substream_storage_size ::
  "('sk, 'd) env \<Rightarrow> ('sk, 'd) confluo_substream_summary \<Rightarrow> size_t" where
  "substream_storage_size env s =
     (let total_size = 0;
          total_size = total_size + cs_storage_size env (sketch s);
          total_size = total_size + of_nat (length (heavy_hitters s))
      in total_size)"

section \<open>The universal sketch\<close>

text \<open>
  The schema and the column are opaque to the sketch.  Of a column the code reads
  \<^verbatim>\<open>idx()\<close> and \<^verbatim>\<open>type().size\<close>.
\<close>

record column_t =
  col_idx :: size_t
  col_type_size :: size_t

type_synonym schema_t = "column_t list"

text \<open>
  The fields of \<^verbatim>\<open>confluo_universal_sketch\<close>.  Modelled from the spec: the
  \<^verbatim>\<open>hash_manager\<close> (\<^verbatim>\<open>hash_manager.h\<close> is missing) is a lazily grown sequence of
  hash functions, \<open>hash(i, x)\<close> returning the \<open>i\<close>-th function at \<open>x\<close>; the field
  \<open>layer_hashes\<close> is that sequence.  \<open>is_valid_flag\<close> is the member \<^verbatim>\<open>is_valid_\<close>.
\<close>

record ('sk, 'd) confluo_universal_sketch =
  substream_summaries :: "('sk, 'd) confluo_substream_summary list"
  layer_hashes :: "nat \<Rightarrow> size_t \<Rightarrow> size_t"
  schema :: schema_t
  column :: column_t
  precise_hh :: bool
  is_valid_flag :: bool

text \<open>
  The constructor.  It has no check of its arguments and no \<^verbatim>\<open>throw\<close>.  The random
  layer hashes are the argument \<open>lhashes\<close>, and \<open>hhhashes i\<close> is the random hash of the
  \<open>i\<close>-th summary.  For \<open>l = 0\<close> the source asks the hash manager for \<open>l - 1 = 2^64 - 1\<close>
  hashes; what the missing class does then is not part of this model, and no theorem
  below is about a sketch constructed with \<open>l = 0\<close>.
\<close>

definition new_universal_sketch ::
  "('sk, 'd) env \<Rightarrow> size_t \<Rightarrow> size_t \<Rightarrow> size_t \<Rightarrow> size_t \<Rightarrow> 'd \<Rightarrow> schema_t \<Rightarrow> column_t \<Rightarrow> bool
     \<Rightarrow> (nat \<Rightarrow> size_t \<Rightarrow> size_t) \<Rightarrow> (nat \<Rightarrow> size_t \<Rightarrow> size_t)
     \<Rightarrow> ('sk, 'd) confluo_universal_sketch" where
  "new_universal_sketch env l t b k a sch col precise lhashes hhhashes =
     \<lparr>substream_summaries =
        map (\<lambda>i. new_substream_summary env t b k a precise (hhhashes i)) [0..<unat l],
      layer_hashes = lhashes, schema = sch, column = col, precise_hh = precise,
      is_valid_flag = True\<rparr>"

definition is_valid :: "('sk, 'd) confluo_universal_sketch \<Rightarrow> bool" where
  "is_valid s = is_valid_flag s"

text \<open>
  \<^verbatim>\<open>invalidate()\<close>: a strong compare-and-swap of the flag from \<^verbatim>\<open>true\<close> to
  \<^verbatim>\<open>false\<close>; the result says whether the swap took place.
\<close>

definition invalidate ::
  "('sk, 'd) confluo_universal_sketch \<Rightarrow> bool \<times> ('sk, 'd) confluo_universal_sketch" where
  "invalidate s =
     (let expected = True
      in if is_valid_flag s = expected then (True, s\<lparr>is_valid_flag := False\<rparr>) else (False, s))"

definition to_bool :: "size_t \<Rightarrow> size_t" where
  "to_bool hashed_value = hashed_value mod 2"

text \<open>
  The loop of \<^verbatim>\<open>update\<close>, from the value \<open>i\<close> of its counter: it goes on while
  \<open>i\<close> is a layer and \<^verbatim>\<open>to_bool(layer_hashes_.hash(i - 1, key_hash))\<close> is not zero.
\<close>

function update_layers ::
  "('sk, 'd) env \<Rightarrow> (nat \<Rightarrow> size_t \<Rightarrow> size_t) \<Rightarrow> size_t \<Rightarrow> nat
     \<Rightarrow> ('sk, 'd) confluo_substream_summary list
     \<Rightarrow> error + ('sk, 'd) confluo_substream_summary list" where
  "update_layers env hashes key_hash i ss =
     (if i < length ss \<and> to_bool (hashes (i - 1) key_hash) \<noteq> 0 then
        (case update_substream env (ss ! i) key_hash of
           Inl e \<Rightarrow> Inl e
         | Inr s' \<Rightarrow> update_layers env hashes key_hash (Suc i) (ss[i := s']))
      else Inr ss)"
  by pat_completeness auto
termination
  by (relation "measure (\<lambda>(env, hashes, key_hash, i, ss). length ss - i)") auto

text \<open>
  \<^verbatim>\<open>update(r)\<close>.  The key hash \<^verbatim>\<open>r.at(column_.idx()).get_key().hash()\<close> comes from
  the record classes, which are not given; it is the argument \<open>key_hash\<close>.
\<close>

definition update ::
  "('sk, 'd) env \<Rightarrow> ('sk, 'd) confluo_universal_sketch \<Rightarrow> size_t
     \<Rightarrow> error + ('sk, 'd) confluo_universal_sketch" where
  "update env s key_hash =
     (if 0 < length (substream_summaries s) then
        (case update_substream env (substream_summaries s ! 0) key_hash of
           Inl e \<Rightarrow> Inl e
         | Inr s0 \<Rightarrow>
             (case update_layers env (layer_hashes s) key_hash 1 ((substream_summaries s)[0 := s0]) of
                Inl e \<Rightarrow> Inl e
              | Inr ss' \<Rightarrow> Inr (s\<lparr>substream_summaries := ss'\<rparr>)))
      else Inl OutOfBounds)"

subsection \<open>Evaluation of a G-sum\<close>

text \<open>
  \<^verbatim>\<open>evaluate\<close> is a template over the result type \<^verbatim>\<open>g_ret_t\<close> of \<open>g\<close>.  What it
  does with a \<^verbatim>\<open>g_ret_t\<close> is collected in one record: \<open>r_zero\<close> is the initial value
  \<^verbatim>\<open>0\<close>, \<open>r_add\<close> is \<^verbatim>\<open>+=\<close>, \<open>r_twice\<close> is the product \<^verbatim>\<open>2 * recursive_sum\<close>,
  and \<open>r_scale f x\<close> is the product of the \<^verbatim>\<open>size_t\<close> value \<open>f\<close> and the
  \<^verbatim>\<open>g_ret_t\<close> value \<open>x\<close>, stored in a \<^verbatim>\<open>g_ret_t\<close>: in
  \<^verbatim>\<open>(1 - 2 * to_bool(...)) * g(count)\<close> the factor is computed in \<^verbatim>\<open>size_t\<close>, since
  \<^verbatim>\<open>to_bool\<close> returns a \<^verbatim>\<open>size_t\<close>.
\<close>

record 'r ret_ops =
  r_zero :: 'r
  r_add :: "'r \<Rightarrow> 'r \<Rightarrow> 'r"
  r_twice :: "'r \<Rightarrow> 'r"
  r_scale :: "size_t \<Rightarrow> 'r \<Rightarrow> 'r"

text \<open>
  The default \<^verbatim>\<open>g_ret_t = counter_t = int64_t\<close>: the \<^verbatim>\<open>int64_t\<close> operand is
  converted to the unsigned type, the product is taken modulo \<open>2^64\<close> and converted
  back.
\<close>

definition counter_ret :: "counter_t ret_ops" where
  "counter_ret = \<lparr>r_zero = 0, r_add = (\<lambda>x y. x + y), r_twice = (\<lambda>x. 2 * x),
                  r_scale = (\<lambda>f x. f * x)\<rparr>"

text \<open>
  \<^verbatim>\<open>g_ret_t = double\<close>, a \<^verbatim>\<open>double\<close> being a real number as in the concrete
  environment below (roundings are not modelled): the \<^verbatim>\<open>size_t\<close> operand is converted
  to \<^verbatim>\<open>double\<close>, the value of an unsigned number.
\<close>

definition double_ret :: "real ret_ops" where
  "double_ret = \<lparr>r_zero = 0, r_add = (\<lambda>x y. x + y), r_twice = (\<lambda>x. 2 * x),
                 r_scale = (\<lambda>f x. real (unat f) * x)\<rparr>"

text \<open>The four inner loops of \<^verbatim>\<open>evaluate\<close>.\<close>

definition last_sum_precise :: "'r ret_ops \<Rightarrow> (counter_t \<Rightarrow> 'r) \<Rightarrow> heavy_hitter_set_t \<Rightarrow> 'r" where
  "last_sum_precise ret g hhs =
     foldl (\<lambda>recursive_sum e. r_add ret recursive_sum (g (e_priority e))) (r_zero ret) hhs"

definition last_sum_approx ::
  "'r ret_ops \<Rightarrow> ('sk, 'd) env \<Rightarrow> 'sk \<Rightarrow> (counter_t \<Rightarrow> 'r) \<Rightarrow> size_t list \<Rightarrow> 'r" where
  "last_sum_approx ret env last_substream_sketch g hhs =
     foldl (\<lambda>recursive_sum hh_rec_off.
              if hh_rec_off \<noteq> 0 then
                (let hh_hash = 0;
                     count = cs_estimate env last_substream_sketch hh_hash
                 in r_add ret recursive_sum (g count))
              else recursive_sum) (r_zero ret) hhs"

definition substream_sum_precise ::
  "'r ret_ops \<Rightarrow> (nat \<Rightarrow> size_t \<Rightarrow> size_t) \<Rightarrow> nat \<Rightarrow> (counter_t \<Rightarrow> 'r) \<Rightarrow> heavy_hitter_set_t
     \<Rightarrow> 'r" where
  "substream_sum_precise ret hashes substream_i g hhs =
     foldl (\<lambda>substream_sum e.
              (let hh_hash = e_key e;
                   count = e_priority e;
                   upd = r_scale ret (1 - 2 * to_bool (hashes substream_i hh_hash)) (g count)
               in r_add ret substream_sum upd)) (r_zero ret) hhs"

definition substream_sum_approx ::
  "'r ret_ops \<Rightarrow> ('sk, 'd) env \<Rightarrow> (nat \<Rightarrow> size_t \<Rightarrow> size_t) \<Rightarrow> nat \<Rightarrow> 'sk
     \<Rightarrow> (counter_t \<Rightarrow> 'r) \<Rightarrow> size_t list \<Rightarrow> 'r" where
  "substream_sum_approx ret env hashes substream_i substream_sketch g hhs =
     foldl (\<lambda>substream_sum hh_hash.
              (let count = cs_estimate env substream_sketch hh_hash
               in if hh_hash \<noteq> empty_key_hash env then
                    (let upd = r_scale ret (1 - 2 * to_bool (hashes substream_i hh_hash))
                                 (g count)
                     in r_add ret substream_sum upd)
                  else substream_sum)) (r_zero ret) hhs"

text \<open>
  The loop \<^verbatim>\<open>while (substream_i-- > 0)\<close>: the nat argument is the value of
  \<^verbatim>\<open>substream_i\<close> that is tested; the body runs with the value below it.
\<close>

fun evaluate_rest ::
  "'r ret_ops \<Rightarrow> ('sk, 'd) env \<Rightarrow> ('sk, 'd) confluo_universal_sketch \<Rightarrow> (counter_t \<Rightarrow> 'r)
     \<Rightarrow> nat \<Rightarrow> 'r \<Rightarrow> error + 'r" where
  "evaluate_rest ret env s g 0 recursive_sum = Inr recursive_sum"
| "evaluate_rest ret env s g (Suc substream_i) recursive_sum =
     (if substream_i < length (substream_summaries s) then
        (let sub = substream_summaries s ! substream_i;
             substream_sum =
               (if precise_hh s then
                  substream_sum_precise ret (layer_hashes s) substream_i g (hhs_precise sub)
                else
                  substream_sum_approx ret env (layer_hashes s) substream_i (sketch sub) g
                    (heavy_hitters sub))
         in evaluate_rest ret env s g substream_i
              (r_add ret (r_twice ret recursive_sum) substream_sum))
      else Inl OutOfBounds)"

text \<open>
  \<^verbatim>\<open>evaluate(g, nlayers)\<close>.  \<^verbatim>\<open>nlayers - 1\<close> is a \<^verbatim>\<open>size_t\<close> and wraps.
\<close>

definition evaluate ::
  "'r ret_ops \<Rightarrow> ('sk, 'd) env \<Rightarrow> ('sk, 'd) confluo_universal_sketch \<Rightarrow> (counter_t \<Rightarrow> 'r)
     \<Rightarrow> size_t \<Rightarrow> error + 'r" where
  "evaluate ret env s g nlayers =
     (let substream_i = nlayers - 1
      in if unat substream_i < length (substream_summaries s) then
           (let last = substream_summaries s ! unat substream_i;
                recursive_sum =
                  (if precise_hh s then last_sum_precise ret g (hhs_precise last)
                   else last_sum_approx ret env (sketch last) g (heavy_hitters last))
            in evaluate_rest ret env s g (unat substream_i) recursive_sum)
         else Inl OutOfBounds)"

text \<open>\<^verbatim>\<open>evaluate(g)\<close> is \<^verbatim>\<open>evaluate(g, substream_summaries_.size())\<close>.\<close>

definition evaluate_all ::
  "'r ret_ops \<Rightarrow> ('sk, 'd) env \<Rightarrow> ('sk, 'd) confluo_universal_sketch \<Rightarrow> (counter_t \<Rightarrow> 'r)
     \<Rightarrow> error + 'r" where
  "evaluate_all ret env s g = evaluate ret env s g (of_nat (length (substream_summaries s)))"

definition storage_size :: "('sk, 'd) env \<Rightarrow> ('sk, 'd) confluo_universal_sketch \<Rightarrow> size_t" where
  "storage_size env s =
     foldl (\<lambda>total_size sub. total_size + substream_storage_size env sub) 0
       (substream_summaries s)"

text \<open>
  \<^verbatim>\<open>create_parameterized\<close>: the braced list is the constructor call, so the second
  argument is the constructor's \<open>t\<close> and the third its \<open>b\<close>; \<^verbatim>\<open>precise\<close> has its
  default \<^verbatim>\<open>true\<close>.
\<close>

definition create_parameterized ::
  "('sk, 'd) env \<Rightarrow> 'd \<Rightarrow> 'd \<Rightarrow> size_t \<Rightarrow> 'd \<Rightarrow> schema_t \<Rightarrow> column_t
     \<Rightarrow> (nat \<Rightarrow> size_t \<Rightarrow> size_t) \<Rightarrow> (nat \<Rightarrow> size_t \<Rightarrow> size_t)
     \<Rightarrow> ('sk, 'd) confluo_universal_sketch" where
  "create_parameterized env epsilon gamma k a sch col lhashes hhhashes =
     (let nlayers = 8 * sizeof_type_size env
      in new_universal_sketch env nlayers (cs_error_margin_to_width env epsilon)
           (cs_perror_to_depth env gamma) k a sch col True lhashes hhhashes)"

section \<open>A Count-Sketch after the specification\<close>

text \<open>
  Modelled from the spec: the class \<^verbatim>\<open>count_sketch\<close> (\<^verbatim>\<open>count_sketch.h\<close> is
  missing).  The state is a depth \<open>d\<close> by width \<open>w\<close> array of counters with a bucket
  function and a sign function for every row; \<open>update(key_hash, delta)\<close> adds
  \<open>sign_r(key_hash) * delta\<close> to \<open>C[r][bucket_r(key_hash)]\<close> in every row \<open>r\<close>;
  \<open>estimate(key_hash)\<close> is the median over the rows of
  \<open>sign_r(key_hash) * C[r][bucket_r(key_hash)]\<close>; \<open>update_and_estimate\<close> reads the
  estimate and then applies \<open>update(key_hash, +1)\<close>; \<open>storage_size\<close> is
  \<open>d * w * sizeof(C)\<close>; \<open>error_margin_to_width(epsilon) = ceil(e / epsilon^2)\<close> and
  \<open>perror_to_depth(gamma) = ceil(log(1 / gamma))\<close>.  The median of an odd number of
  values is the middle one in the signed order; for an even number the upper of the two
  middle values is taken, and 0 when there is no row.  This instance gives the theorems
  about all environments a concrete one to run on; a \<^verbatim>\<open>double\<close> is a real number
  in it.
\<close>

record count_sketch =
  counters :: "counter_t list list"
  bucket :: "nat \<Rightarrow> size_t \<Rightarrow> nat"
  sign :: "nat \<Rightarrow> size_t \<Rightarrow> counter_t"

definition spec_cs_new ::
  "(nat \<Rightarrow> size_t \<Rightarrow> nat) \<Rightarrow> (nat \<Rightarrow> size_t \<Rightarrow> counter_t) \<Rightarrow> size_t \<Rightarrow> size_t \<Rightarrow> count_sketch" where
  "spec_cs_new bkt sg t b =
     \<lparr>counters = replicate (unat t) (replicate (unat b) 0), bucket = bkt, sign = sg\<rparr>"

definition spec_cs_update :: "count_sketch \<Rightarrow> size_t \<Rightarrow> counter_t \<Rightarrow> count_sketch" where
  "spec_cs_update sk key_hash delta =
     sk\<lparr>counters :=
          map (\<lambda>(r, row). row[bucket sk r key_hash :=
                               row ! bucket sk r key_hash + sign sk r key_hash * delta])
            (enumerate 0 (counters sk))\<rparr>"

definition median :: "counter_t list \<Rightarrow> counter_t" where
  "median xs = (if xs = [] then 0 else sort_key sint xs ! (length xs div 2))"

definition spec_cs_estimate :: "count_sketch \<Rightarrow> size_t \<Rightarrow> counter_t" where
  "spec_cs_estimate sk key_hash =
     median (map (\<lambda>(r, row). sign sk r key_hash * (row ! bucket sk r key_hash))
               (enumerate 0 (counters sk)))"

definition spec_cs_update_and_estimate :: "count_sketch \<Rightarrow> size_t \<Rightarrow> counter_t \<times> count_sketch" where
  "spec_cs_update_and_estimate sk key_hash =
     (spec_cs_estimate sk key_hash, spec_cs_update sk key_hash 1)"

definition spec_cs_storage_size :: "count_sketch \<Rightarrow> size_t" where
  "spec_cs_storage_size sk = of_nat (sum_list (map length (counters sk)) * 8)"

definition spec_env ::
  "(nat \<Rightarrow> size_t \<Rightarrow> nat) \<Rightarrow> (nat \<Rightarrow> size_t \<Rightarrow> counter_t) \<Rightarrow> size_t \<Rightarrow> (count_sketch, real) env" where
  "spec_env bkt sg empty_hash =
     \<lparr>cs_new = spec_cs_new bkt sg,
      cs_update_and_estimate = spec_cs_update_and_estimate,
      cs_estimate = spec_cs_estimate,
      cs_storage_size = spec_cs_storage_size,
      cs_error_margin_to_width = (\<lambda>epsilon. of_nat (nat \<lceil>exp 1 / epsilon\<^sup>2\<rceil>)),
      cs_perror_to_depth = (\<lambda>gamma. of_nat (nat \<lceil>ln (1 / gamma)\<rceil>)),
      d_of_counter = (\<lambda>c. real_of_int (sint c)),
      d_sqrt = sqrt,
      d_mult = (\<lambda>x y. x * y),
      d_less = (\<lambda>x y. x < y),
      empty_key_hash = empty_hash,
      sizeof_type_size = 8\<rparr>"

section \<open>Auxiliary notions of the properties\<close>

text \<open>
  A summary whose heavy-hitter update has defined behaviour: in exact mode the capacity
  \<open>k\<close> is not zero (the heap has a top whenever it is full), in approximate mode
  there is a slot to take the remainder by.
\<close>

definition hh_ready :: "('sk, 'd) confluo_substream_summary \<Rightarrow> bool" where
  "hh_ready s = (if use_precise_hh s then num_hh s \<noteq> 0 else heavy_hitters s \<noteq> [])"


text \<open>A single-threaded sequence of ingests: \<^verbatim>\<open>update\<close> for each key hash in turn.\<close>

fun run_updates ::
  "('sk, 'd) env \<Rightarrow> ('sk, 'd) confluo_universal_sketch \<Rightarrow> size_t list
     \<Rightarrow> error + ('sk, 'd) confluo_universal_sketch" where
  "run_updates env s [] = Inr s"
| "run_updates env s (key_hash # ks) =
     (case update env s key_hash of Inl e \<Rightarrow> Inl e | Inr s' \<Rightarrow> run_updates env s' ks)"

text \<open>The accumulators of the layers of a sketch, where the run reached one.\<close>

definition l2_of :: "error + ('sk, 'd) confluo_universal_sketch \<Rightarrow> error + counter_t list" where
  "l2_of r = map_sum id (\<lambda>s. map l2_squared_acc (substream_summaries s)) r"



subsection \<open>The G-sum as the specification writes it\<close>

text \<open>
  The recursion of the specification for \<open>evaluate(g, nlayers)\<close> in exact mode, written
  from its words and not from the code, over any commutative ring of results (the
  wrapping counter and the real numbers are two): the parity of a hash is its lowest
  bit; \<open>T_i\<close> is the sum over the entries \<open>(k, c)\<close> of the heap of layer \<open>i\<close> of
  \<open>(1 - 2 * parity(layer_hash[i](k))) * g(c)\<close>; the sum of the last layer
  \<open>nlayers - 1\<close> is the sum of \<open>g(c)\<close> over its heap; and
  \<open>S_i = 2 * S_(i+1) + T_i\<close> below it.
\<close>

definition spec_parity :: "size_t \<Rightarrow> 'a::comm_ring_1" where
  "spec_parity x = (if bit x 0 then 1 else 0)"

definition spec_T ::
  "('sk, 'd) confluo_universal_sketch \<Rightarrow> (counter_t \<Rightarrow> 'a::comm_ring_1) \<Rightarrow> nat \<Rightarrow> 'a" where
  "spec_T s g i =
     (\<Sum>e\<leftarrow>hhs_precise (substream_summaries s ! i).
        (1 - 2 * spec_parity (layer_hashes s i (e_key e))) * g (e_priority e))"

function spec_S ::
  "('sk, 'd) confluo_universal_sketch \<Rightarrow> (counter_t \<Rightarrow> 'a::comm_ring_1) \<Rightarrow> nat \<Rightarrow> nat \<Rightarrow> 'a" where
  "spec_S s g nlayers i =
     (if Suc i < nlayers then 2 * spec_S s g nlayers (Suc i) + spec_T s g i
      else (\<Sum>e\<leftarrow>hhs_precise (substream_summaries s ! i). g (e_priority e)))"
  by pat_completeness auto
termination
  by (relation "measure (\<lambda>(s, g, nlayers, i). nlayers - i)") auto

subsection \<open>Operations of the public interface\<close>

text \<open>
  The operations a caller can run on a sketch after its construction, and the state
  after one of them and after a sequence of them.  \<^verbatim>\<open>evaluate\<close>, \<^verbatim>\<open>is_valid\<close> and
  \<^verbatim>\<open>storage_size\<close> only read; their results are not kept here.
\<close>

datatype 'r op =
    Update size_t
  | Evaluate "counter_t \<Rightarrow> 'r" size_t
  | EvaluateAll "counter_t \<Rightarrow> 'r"
  | IsValid
  | Invalidate
  | StorageSize

fun step ::
  "'r ret_ops \<Rightarrow> ('sk, 'd) env \<Rightarrow> ('sk, 'd) confluo_universal_sketch \<Rightarrow> 'r op
     \<Rightarrow> error + ('sk, 'd) confluo_universal_sketch" where
  "step ret env s (Update key_hash) = update env s key_hash"
| "step ret env s (Evaluate g nlayers) =
     (case evaluate ret env s g nlayers of Inl e \<Rightarrow> Inl e | Inr v \<Rightarrow> Inr s)"
| "step ret env s (EvaluateAll g) =
     (case evaluate_all ret env s g of Inl e \<Rightarrow> Inl e | Inr v \<Rightarrow> Inr s)"
| "step ret env s IsValid = (let v = is_valid s in Inr s)"
| "step ret env s Invalidate = Inr (snd (invalidate s))"
| "step ret env s StorageSize = (let n = storage_size env s in Inr s)"

fun run ::
  "'r ret_ops \<Rightarrow> ('sk, 'd) env \<Rightarrow> ('sk, 'd) confluo_universal_sketch \<Rightarrow> 'r op list
     \<Rightarrow> error + ('sk, 'd) confluo_universal_sketch" where
  "run ret env s [] = Inr s"
| "run ret env s (x # xs) =
     (case step ret env s x of Inl e \<Rightarrow> Inl e | Inr s' \<Rightarrow> run ret env s' xs)"

section \<open>Concrete sketches\<close>

text \<open>
  One row and one bucket; key hash 7 has sign \<open>+1\<close> and every other key hash has sign
  \<open>-1\<close>; the hash of the empty byte string is taken to be 0.
\<close>

definition ex_env :: "(count_sketch, real) env" where
  "ex_env = spec_env (\<lambda>r k. 0) (\<lambda>r k. if k = 7 then 1 else - 1) 0"

definition ex_summary :: "(count_sketch, real) confluo_substream_summary" where
  "ex_summary = new_substream_summary ex_env 1 1 1 (1 / 2) True (\<lambda>k. k)"

text \<open>
  A sketch of one layer over the concrete environment, with \<open>d = w = k = 1\<close> and
  \<open>alpha = 1/2\<close>, in exact mode.
\<close>

definition ex_column :: column_t where
  "ex_column = \<lparr>col_idx = 0, col_type_size = 4\<rparr>"

definition ex_sketch1 :: "(count_sketch, real) confluo_universal_sketch" where
  "ex_sketch1 =
     new_universal_sketch ex_env 1 1 1 1 (1 / 2) [ex_column] ex_column True (\<lambda>i k. k) (\<lambda>i k. k)"

text \<open>
  Two buckets: key hash 7 falls into the first and every other key hash into the second;
  all signs are \<open>+1\<close>.  \<open>ex_summary2\<close> is the summary with \<open>d = 1\<close>,
  \<open>w = 2\<close>, \<open>k = 1\<close>, \<open>alpha = 1/2\<close> after the ingests of 7 and of 3.
\<close>

definition ex_env2 :: "(count_sketch, real) env" where
  "ex_env2 = spec_env (\<lambda>r k. if k = 7 then 0 else 1) (\<lambda>r k. 1) 0"

definition ex_summary2 :: "(count_sketch, real) confluo_substream_summary" where
  "ex_summary2 =
     \<lparr>hh_threshold = 1 / 2, num_hh = 1, l2_squared_acc = 2,
      sketch = \<lparr>counters = [[1, 1]], bucket = (\<lambda>r k. if k = 7 then 0 else 1),
                sign = (\<lambda>r k. 1)\<rparr>,
      heavy_hitters = [0], hhs_precise = [\<lparr>e_key = 7, e_priority = 1\<rparr>],
      hh_hash = (\<lambda>k. k), use_precise_hh = True\<rparr>"


definition ex_state2 :: "(count_sketch, real) confluo_universal_sketch" where
  "ex_state2 =
     \<lparr>substream_summaries =
        [\<lparr>hh_threshold = 1 / 2, num_hh = 2, l2_squared_acc = 2,
          sketch = \<lparr>counters = [[1, 1]], bucket = (\<lambda>r k. if k = 7 then 0 else 1),
                    sign = (\<lambda>r k. 1)\<rparr>,
          heavy_hitters = [0, 0],
          hhs_precise = [\<lparr>e_key = 7, e_priority = 1\<rparr>, \<lparr>e_key = 4, e_priority = 1\<rparr>],
          hh_hash = (\<lambda>k. k), use_precise_hh = True\<rparr>,
         \<lparr>hh_threshold = 1 / 2, num_hh = 2, l2_squared_acc = 1,
          sketch = \<lparr>counters = [[1, 0]], bucket = (\<lambda>r k. if k = 7 then 0 else 1),
                    sign = (\<lambda>r k. 1)\<rparr>,
          heavy_hitters = [0, 0],
          hhs_precise = [\<lparr>e_key = 7, e_priority = 1\<rparr>],
          hh_hash = (\<lambda>k. k), use_precise_hh = True\<rparr>],
      layer_hashes = (\<lambda>i k. k), schema = [ex_column], column = ex_column,
      precise_hh = True, is_valid_flag = True\<rparr>"

text \<open>
  \<open>ex_state2\<close> with a third layer added and with other layer hashes from index 1 on.
\<close>

definition ex_state3 :: "(count_sketch, real) confluo_universal_sketch" where
  "ex_state3 =
     ex_state2\<lparr>substream_summaries := substream_summaries ex_state2 @ [ex_summary2],
               layer_hashes := (\<lambda>i k. if i = 0 then k else 0)\<rparr>"

text \<open>
  One layer over \<open>ex_env2\<close> in approximate mode, with \<open>d = 1\<close>, \<open>w = 2\<close>,
  \<open>k = 1\<close>, \<open>alpha = 1/2\<close>, and its state after two ingests of 7.
\<close>

definition ex_sketch_approx :: "(count_sketch, real) confluo_universal_sketch" where
  "ex_sketch_approx =
     new_universal_sketch ex_env2 1 1 2 1 (1 / 2) [ex_column] ex_column False
       (\<lambda>i k. k) (\<lambda>i k. k)"

definition ex_state_approx :: "(count_sketch, real) confluo_universal_sketch" where
  "ex_state_approx =
     \<lparr>substream_summaries =
        [\<lparr>hh_threshold = 1 / 2, num_hh = 1, l2_squared_acc = 4,
          sketch = \<lparr>counters = [[2, 0]], bucket = (\<lambda>r k. if k = 7 then 0 else 1),
                    sign = (\<lambda>r k. 1)\<rparr>,
          heavy_hitters = [7], hhs_precise = [],
          hh_hash = (\<lambda>k. k), use_precise_hh = False\<rparr>],
      layer_hashes = (\<lambda>i k. k), schema = [ex_column], column = ex_column,
      precise_hh = False, is_valid_flag = True\<rparr>"

text \<open>
  A construction with \<open>k = 0\<close> and \<open>alpha = 2\<close>.
\<close>

definition ex_sketch_bad :: "(count_sketch, real) confluo_universal_sketch" where
  "ex_sketch_bad =
     new_universal_sketch ex_env 1 1 1 0 2 [ex_column] ex_column True (\<lambda>i k. k) (\<lambda>i k. k)"

text \<open>
  \<^verbatim>\<open>create_parameterized\<close> over the concrete environment for \<open>epsilon = 1\<close>,
  \<open>gamma = 1/2\<close>, \<open>k = 1\<close>, \<open>alpha = 1/2\<close> and a column whose type is 4 bytes wide.
\<close>

definition ex_parameterized :: "(count_sketch, real) confluo_universal_sketch" where
  "ex_parameterized =
     create_parameterized ex_env 1 (1 / 2) 1 (1 / 2) [ex_column] ex_column (\<lambda>i k. k) (\<lambda>i k. k)"




section \<open>Properties of the substream summary\<close>

declare update_layers.simps [simp del]

lemma update_hh_pq_l2:
  "update_hh_pq env s k c l = Inr s' \<Longrightarrow> l2_squared_acc s' = l2_squared_acc s"
  by (auto simp: update_hh_pq_def split: if_splits option.splits)

lemma update_hh_approx_l2:
  "update_hh_approx env s k c l = Inr s' \<Longrightarrow> l2_squared_acc s' = l2_squared_acc s"
  by (auto simp: update_hh_approx_def Let_def split: if_splits)

lemma update_substream_l2:
  assumes "update_substream env s kh = Inr s'"
  shows "l2_squared_acc s' =
           l2_squared_acc s + l2_squared_update (fst (cs_update_and_estimate env (sketch s) kh))"
  using assms
  by (auto simp: update_substream_def Let_def split: prod.splits if_splits
           dest!: update_hh_pq_l2 update_hh_approx_l2)

lemma pq_top_Some: "h \<noteq> [] \<Longrightarrow> \<exists>m. pq_top h = Some m"
  by (cases h) (auto simp: pq_top_def)

text \<open>The top of the modelled heap is an entry of least count.\<close>

lemma min_entry_mem: "min_entry m es \<in> set (m # es)"
  by (induction es arbitrary: m) auto

lemma min_entry_le_start: "e_priority (min_entry m es) \<le>s e_priority m"
proof (induction es arbitrary: m)
  case Nil
  show ?case by simp
next
  case (Cons e es)
  show ?case
  proof (cases "e_priority e <s e_priority m")
    case True
    with Cons.IH [of e] show ?thesis
      by (simp add: word_sle_eq word_sless_alt)
  next
    case False
    with Cons.IH [of m] show ?thesis by simp
  qed
qed

lemma min_entry_le: "e \<in> set (m # es) \<Longrightarrow> e_priority (min_entry m es) \<le>s e_priority e"
proof (induction es arbitrary: m)
  case Nil
  then show ?case by simp
next
  case (Cons x es)
  let ?m' = "if e_priority x <s e_priority m then x else m"
  show ?case
  proof (cases "e \<in> set (?m' # es)")
    case True
    from Cons.IH [OF True] show ?thesis by simp
  next
    case False
    with Cons.prems have "\<not> e_priority e <s e_priority ?m'"
      by (auto simp: word_sle_eq word_sless_alt split: if_splits)
    with min_entry_le_start [of ?m' es] show ?thesis
      by (simp add: word_sle_eq word_sless_alt)
  qed
qed

lemma pq_top_is_minimum:
  assumes "pq_top h = Some m"
  shows "m \<in> set h \<and> (\<forall>e \<in> set h. e_priority m \<le>s e_priority e)"
proof (cases h)
  case Nil
  with assms show ?thesis by (simp add: pq_top_def)
next
  case (Cons x xs)
  with assms have m: "m = min_entry x xs" by (simp add: pq_top_def)
  show ?thesis unfolding m Cons using min_entry_mem [of x xs] min_entry_le [of _ x xs] by blast
qed

lemma update_hh_pq_total:
  assumes k: "num_hh s \<noteq> 0"
  shows "\<exists>s'. update_hh_pq env s kh c l = Inr s'"
proof (cases "length (hhs_precise s) < unat (num_hh s)")
  case True
  then show ?thesis by (simp add: update_hh_pq_def)
next
  case False
  from k have "0 < unat (num_hh s)" by (simp add: unat_gt_0)
  with False have "hhs_precise s \<noteq> []" by auto
  then obtain m where "pq_top (hhs_precise s) = Some m" using pq_top_Some by blast
  with False show ?thesis by (simp add: update_hh_pq_def)
qed

lemma update_hh_approx_total:
  "heavy_hitters s \<noteq> [] \<Longrightarrow> \<exists>s'. update_hh_approx env s kh c l = Inr s'"
  by (simp add: update_hh_approx_def Let_def)

lemma update_substream_total:
  "hh_ready s \<Longrightarrow> \<exists>s'. update_substream env s kh = Inr s'"
  by (auto simp: update_substream_def hh_ready_def Let_def update_hh_pq_total
        update_hh_approx_total split: prod.splits if_splits)

lemma sq_diff: "(c + 1)\<^sup>2 - c\<^sup>2 = 2 * c + (1::64 word)"
  by (simp add: power2_eq_square algebra_simps)

lemmas ex_defs = ex_env_def ex_summary_def spec_env_def new_substream_summary_def
  spec_cs_new_def spec_cs_update_and_estimate_def spec_cs_estimate_def spec_cs_update_def
  median_def

text \<open>
  Claim C5.  On every ingest the L2-squared accumulator is updated by a fetch-and-add of
  \<open>2 * c_old + 1\<close>, where \<open>c_old\<close> is the Count-Sketch estimate just before the ingest:
  whenever \<open>update_and_estimate\<close> returns the estimate of the sketch it is given (its
  contract), the accumulator after \<open>update\<close> is the prior value plus \<open>2 * c_old + 1\<close>,
  which is the prior value plus \<open>(c_old + 1)^2 - c_old^2\<close>; and the update does return
  a state when the heavy-hitter update has defined behaviour.
\<close>

theorem l2_squared_fetch_and_add:
  assumes "cs_update_and_estimate env (sketch s) key_hash =
             (cs_estimate env (sketch s) key_hash, sk')"
  shows "(hh_ready s \<longrightarrow> (\<exists>s'. update_substream env s key_hash = Inr s')) \<and>
         (\<forall>s'. update_substream env s key_hash = Inr s' \<longrightarrow>
            l2_squared_acc s' =
              l2_squared_acc s + (2 * cs_estimate env (sketch s) key_hash + 1) \<and>
            l2_squared_acc s' =
              l2_squared_acc s + ((cs_estimate env (sketch s) key_hash + 1)\<^sup>2
                                   - (cs_estimate env (sketch s) key_hash)\<^sup>2))"
proof (intro conjI allI impI)
  assume "hh_ready s"
  then show "\<exists>s'. update_substream env s key_hash = Inr s'"
    by (rule update_substream_total)
next
  fix s' assume u: "update_substream env s key_hash = Inr s'"
  from update_substream_l2 [OF u] assms
  show a: "l2_squared_acc s' =
             l2_squared_acc s + (2 * cs_estimate env (sketch s) key_hash + 1)"
    by (simp add: l2_squared_update_def)
  show "l2_squared_acc s' =
          l2_squared_acc s + ((cs_estimate env (sketch s) key_hash + 1)\<^sup>2
                               - (cs_estimate env (sketch s) key_hash)\<^sup>2)"
    unfolding sq_diff by (rule a)
qed

theorem l2_squared_fetch_and_add_witness:
  "cs_update_and_estimate ex_env (sketch ex_summary) 7 =
     (cs_estimate ex_env (sketch ex_summary) 7, spec_cs_update (sketch ex_summary) 7 1) \<and>
   hh_ready ex_summary \<and>
   (\<exists>s'. update_substream ex_env ex_summary 7 = Inr s' \<and> l2_squared_acc s' = 1)"
proof -
  have h: "cs_update_and_estimate ex_env (sketch ex_summary) 7 =
     (cs_estimate ex_env (sketch ex_summary) 7, spec_cs_update (sketch ex_summary) 7 1)"
    by (simp add: ex_env_def spec_env_def spec_cs_update_and_estimate_def)
  have r: "hh_ready ex_summary"
    by (simp add: hh_ready_def ex_summary_def new_substream_summary_def)
  have e: "cs_estimate ex_env (sketch ex_summary) 7 = 0"
    by (simp add: ex_defs)
  have z: "l2_squared_acc ex_summary = 0"
    by (simp add: ex_summary_def new_substream_summary_def)
  from l2_squared_fetch_and_add [OF h] r obtain s' where
    u: "update_substream ex_env ex_summary 7 = Inr s'" by blast
  with l2_squared_fetch_and_add [OF h]
  have "l2_squared_acc s' =
          l2_squared_acc ex_summary + (2 * cs_estimate ex_env (sketch ex_summary) 7 + 1)"
    by blast
  then have "l2_squared_acc s' = 1" by (simp add: e z)
  with u h r show ?thesis by blast
qed

lemmas ex2_defs = ex_env2_def spec_env_def new_substream_summary_def
  spec_cs_new_def spec_cs_update_and_estimate_def spec_cs_estimate_def spec_cs_update_def
  median_def

lemmas hh_pq_defs = update_substream_def update_hh_pq_def l2_squared_update_def pushp_def
  remove_if_exists_def pq_top_def pop_def Let_def word_sless_alt

lemma sqrt2_le: "\<not> 2 < sqrt 2"
proof -
  have "sqrt 2 \<le> sqrt 4" by (rule real_sqrt_le_mono) simp
  then show ?thesis by simp
qed

lemma sqrt5_le: "\<not> 4 < sqrt 5"
proof -
  have "sqrt 5 \<le> sqrt 16" by (rule real_sqrt_le_mono) simp
  also have "sqrt 16 = 4" using real_sqrt_abs [of 4] by simp
  finally show ?thesis by simp
qed

text \<open>
  Claim C6.  In exact mode, a substream update with pre-update estimate \<open>c_old\<close> and
  post-update L2 estimate \<open>l\<close> returns, and its heap is: the old heap if
  \<open>c_old + 1 < alpha * l\<close>; otherwise, if the heap's size is below \<open>k\<close>, the old heap
  with any entry for the key hash removed and \<open>(key_hash, c_old + 1)\<close> pushed;
  otherwise, if the sketch's current estimate of the key of the heap's root is less than
  \<open>c_old + 1\<close>, the old heap with the root popped, any entry for the key hash removed
  and \<open>(key_hash, c_old + 1)\<close> pushed; otherwise the old heap.  With \<open>k\<close> not zero a
  full heap has a root.
\<close>

theorem exact_heavy_hitter_update:
  assumes "use_precise_hh s"
      and "num_hh s \<noteq> 0"
      and "cs_update_and_estimate env (sketch s) key_hash = (c_old, sk')"
      and "l = d_sqrt env (d_of_counter env (l2_squared_acc s + (2 * c_old + 1)))"
  shows "\<exists>s'. update_substream env s key_hash = Inr s' \<and>
           hhs_precise s' =
             (if d_less env (d_of_counter env (c_old + 1)) (d_mult env (hh_threshold s) l)
              then hhs_precise s
              else if length (hhs_precise s) < unat (num_hh s)
              then pushp (remove_if_exists (hhs_precise s) key_hash) key_hash (c_old + 1)
              else (case pq_top (hhs_precise s) of
                      None \<Rightarrow> hhs_precise s
                    | Some head \<Rightarrow>
                        if cs_estimate env sk' (e_key head) <s c_old + 1
                        then pushp (remove_if_exists (pop (hhs_precise s)) key_hash)
                               key_hash (c_old + 1)
                        else hhs_precise s))"
proof -
  let ?s1 = "s\<lparr>sketch := sk', l2_squared_acc := l2_squared_acc s + (2 * c_old + 1)\<rparr>"
  have u: "update_substream env s key_hash = update_hh_pq env ?s1 key_hash (c_old + 1) l"
    using assms by (simp add: update_substream_def l2_squared_update_def Let_def)
  show ?thesis
  proof (cases "length (hhs_precise s) < unat (num_hh s)")
    case True
    then show ?thesis unfolding u by (simp add: update_hh_pq_def)
  next
    case False
    from assms(2) have "0 < unat (num_hh s)" by (simp add: unat_gt_0)
    with False have "hhs_precise s \<noteq> []" by auto
    then obtain m where "pq_top (hhs_precise s) = Some m" using pq_top_Some by blast
    with False show ?thesis unfolding u by (simp add: update_hh_pq_def)
  qed
qed

text \<open>
  The witness is the third ingest of the stream 7, 3, 3 into a heap of capacity 1: the
  root \<open>(7, 1)\<close> is popped and \<open>(3, 2)\<close> is pushed.
\<close>

theorem exact_heavy_hitter_update_witness:
  "use_precise_hh ex_summary2 \<and> num_hh ex_summary2 \<noteq> 0 \<and>
   cs_update_and_estimate ex_env2 (sketch ex_summary2) 3 =
     (1, spec_cs_update (sketch ex_summary2) 3 1) \<and>
   (\<exists>s'. update_substream ex_env2 ex_summary2 3 = Inr s' \<and>
         hhs_precise s' = [\<lparr>e_key = 3, e_priority = 2\<rparr>])"
proof -
  have h1: "use_precise_hh ex_summary2" by (simp add: ex_summary2_def)
  have h2: "num_hh ex_summary2 \<noteq> 0" by (simp add: ex_summary2_def)
  have h3: "cs_update_and_estimate ex_env2 (sketch ex_summary2) 3 =
              (1, spec_cs_update (sketch ex_summary2) 3 1)"
    by (simp add: ex2_defs ex_summary2_def)
  from exact_heavy_hitter_update [OF h1 h2 h3 refl]
  have "\<exists>s'. update_substream ex_env2 ex_summary2 3 = Inr s' \<and>
          hhs_precise s' = [\<lparr>e_key = 3, e_priority = 2\<rparr>]"
    by (simp add: ex2_defs ex_summary2_def pushp_def remove_if_exists_def pq_top_def pop_def
          word_sless_alt sqrt5_le)
  with h1 h2 h3 show ?thesis by blast
qed

lemma sint_add_odd:
  fixes a c :: "64 word"
  assumes "sint a + (2 * sint c + 1) < 2 ^ 63" and "0 \<le> sint c"
  shows "sint (a + (2 * c + 1)) = sint a + (2 * sint c + 1)"
proof -
  have e: "a + (2 * c + 1) = word_of_int (sint a + (2 * sint c + 1))"
    by simp
  have lo: "- (2 ^ 63) \<le> sint a" using sint_ge [of a] by simp
  have "sint (word_of_int (sint a + (2 * sint c + 1)) :: 64 word)
          = signed_take_bit 63 (sint a + (2 * sint c + 1))"
    by (simp only: sint_sbintrunc') simp
  also have "\<dots> = sint a + (2 * sint c + 1)"
    using assms lo by (intro signed_take_bit_int_eq_self) auto
  finally show ?thesis by (simp only: e)
qed

text \<open>
  Claim C7, as stated, fails.  One layer, \<open>d = w = k = 1\<close>, \<open>alpha = 1/2\<close>; key hash
  7 has sign \<open>+1\<close> and key hash 3 has sign \<open>-1\<close> in the only bucket.  After the
  ingests 7, 7 the accumulator is 4; the estimate of 3 is then \<open>-2\<close>, so the ingest of
  3 adds \<open>2 * (-2) + 1 = -3\<close> and the accumulator is 1.
\<close>

theorem l2_squared_monotone_counterexample:
  "l2_of (run_updates ex_env ex_sketch1 [7, 7]) = Inr [4] \<and>
   l2_of (run_updates ex_env ex_sketch1 [7, 7, 3]) = Inr [1] \<and>
   \<not> (4 :: counter_t) \<le>s 1"
  by (simp add: l2_of_def ex_sketch1_def new_universal_sketch_def ex_defs update_def
        update_layers.simps hh_pq_defs word_sle_eq)

text \<open>
  Claim C7, amended.  An update adds \<open>2 * c_old + 1\<close> to the accumulator.  When the
  value \<open>c_old\<close> that \<open>update_and_estimate\<close> returns is not negative and the sum does
  not leave the range of the signed counter, the accumulator after the update is not
  below (it is above) the accumulator before it.
\<close>

theorem l2_squared_monotone_if_estimate_non_negative:
  assumes "update_substream env s key_hash = Inr s'"
      and "cs_update_and_estimate env (sketch s) key_hash = (c_old, sk')"
      and "0 \<le>s c_old"
      and "sint (l2_squared_acc s) + (2 * sint c_old + 1) < 2 ^ 63"
  shows "l2_squared_acc s \<le>s l2_squared_acc s' \<and>
         sint (l2_squared_acc s') = sint (l2_squared_acc s) + (2 * sint c_old + 1)"
proof -
  from assms(3) have c: "0 \<le> sint c_old" by (simp add: word_sle_eq)
  from update_substream_l2 [OF assms(1)] assms(2)
  have "l2_squared_acc s' = l2_squared_acc s + (2 * c_old + 1)"
    by (simp add: l2_squared_update_def)
  with sint_add_odd [OF assms(4) c] c show ?thesis by (simp add: word_sle_eq)
qed

theorem l2_squared_monotone_if_estimate_non_negative_witness:
  "update_substream ex_env2 ex_summary2 3 =
     Inr (ex_summary2\<lparr>l2_squared_acc := 5, sketch := spec_cs_update (sketch ex_summary2) 3 1,
                      hhs_precise := [\<lparr>e_key = 3, e_priority = 2\<rparr>]\<rparr>) \<and>
   cs_update_and_estimate ex_env2 (sketch ex_summary2) 3 =
     (1, spec_cs_update (sketch ex_summary2) 3 1) \<and>
   (0 :: counter_t) \<le>s 1 \<and>
   sint (l2_squared_acc ex_summary2) + (2 * sint (1 :: counter_t) + 1) < 2 ^ 63 \<and>
   (2 :: counter_t) \<le>s 5"
proof -
  have h1: "update_substream ex_env2 ex_summary2 3 =
     Inr (ex_summary2\<lparr>l2_squared_acc := 5, sketch := spec_cs_update (sketch ex_summary2) 3 1,
                      hhs_precise := [\<lparr>e_key = 3, e_priority = 2\<rparr>]\<rparr>)"
    by (simp add: ex2_defs ex_summary2_def hh_pq_defs sqrt5_le)
  have h2: "cs_update_and_estimate ex_env2 (sketch ex_summary2) 3 =
              (1, spec_cs_update (sketch ex_summary2) 3 1)"
    by (simp add: ex2_defs ex_summary2_def)
  have h3: "(0 :: counter_t) \<le>s 1" by (simp add: word_sle_eq)
  have h4: "sint (l2_squared_acc ex_summary2) + (2 * sint (1 :: counter_t) + 1) < 2 ^ 63"
    by (simp add: ex_summary2_def)
  from l2_squared_monotone_if_estimate_non_negative [OF h1 h2 h3 h4]
  have "(2 :: counter_t) \<le>s 5" by (simp add: ex_summary2_def)
  with h1 h2 h3 h4 show ?thesis by blast
qed

lemma replicate_two: "replicate 2 x = [x, x]"
  by (simp add: numeral_2_eq_2)

lemma ex_summary2_reached:
  "update_substream ex_env2
     (projr (update_substream ex_env2
               (new_substream_summary ex_env2 1 2 1 (1 / 2) True (\<lambda>k. k)) 7))
     3 = Inr ex_summary2"
  by (simp add: ex2_defs ex_summary2_def hh_pq_defs sqrt2_le replicate_two)

section \<open>Properties of the evaluation\<close>

declare spec_S.simps [simp del]

lemma to_bool_parity: "to_bool x = spec_parity x"
  by (simp add: to_bool_def spec_parity_def mod_2_eq_odd bit_0)

lemma foldl_add_sum_list:
  fixes f :: "'a \<Rightarrow> 'b::monoid_add"
  shows "foldl (\<lambda>acc e. acc + f e) a xs = a + sum_list (map f xs)"
  by (induction xs arbitrary: a) (simp_all add: add.assoc)

lemma last_sum_precise_eq:
  "last_sum_precise counter_ret g hhs = (\<Sum>e\<leftarrow>hhs. g (e_priority e))"
  by (simp add: last_sum_precise_def counter_ret_def foldl_add_sum_list)

lemma substream_sum_precise_eq:
  "substream_sum_precise counter_ret hashes i g hhs =
     (\<Sum>e\<leftarrow>hhs. (1 - 2 * spec_parity (hashes i (e_key e))) * g (e_priority e))"
  by (simp add: substream_sum_precise_def counter_ret_def Let_def foldl_add_sum_list
        to_bool_parity)

lemma evaluate_rest_spec:
  assumes "precise_hh s" and "i < n" and "n \<le> length (substream_summaries s)"
  shows "evaluate_rest counter_ret env s g i (spec_S s g n i) = Inr (spec_S s g n 0)"
  using assms(2)
proof (induction i)
  case 0
  show ?case by simp
next
  case (Suc i)
  then have lt: "Suc i < n" and i: "i < length (substream_summaries s)"
    using assms(3) by auto
  have step: "spec_S s g n i = 2 * spec_S s g n (Suc i) + spec_T s g i"
    using lt by (subst spec_S.simps) simp
  have "evaluate_rest counter_ret env s g (Suc i) (spec_S s g n (Suc i)) =
          evaluate_rest counter_ret env s g i (spec_S s g n i)"
    using assms(1) i by (simp add: Let_def substream_sum_precise_eq step spec_T_def)
       (simp add: counter_ret_def)
  with Suc.IH lt show ?case by simp
qed

lemma unat_pred: "1 \<le> unat (n :: 64 word) \<Longrightarrow> unat (n - 1) = unat n - 1"
  by (metis One_nat_def unat_1 unat_minus_one unat_eq_zero not_one_le_zero)

text \<open>
  With the default \<^verbatim>\<open>g_ret_t = counter_t\<close> the size_t factor \<open>2^64 - 1\<close> acts as
  \<open>-1\<close> in the wrapping product, and \<open>evaluate\<close> in exact mode returns \<open>S_0\<close> of the
  specification's recursion for every \<open>1 \<le> nlayers \<le> L\<close>.
\<close>

lemma evaluate_counter_is_spec_recursion:
  assumes "precise_hh s" and "1 \<le> unat nlayers"
      and "unat nlayers \<le> length (substream_summaries s)"
  shows "evaluate counter_ret env s g nlayers = Inr (spec_S s g (unat nlayers) 0)"
proof -
  let ?n = "unat nlayers"
  have p: "unat (nlayers - 1) = ?n - 1" using assms(2) by (rule unat_pred)
  have lt: "?n - 1 < ?n" using assms(2) by simp
  have base: "spec_S s g ?n (?n - 1) =
                last_sum_precise counter_ret g (hhs_precise (substream_summaries s ! (?n - 1)))"
    using assms(2) by (subst spec_S.simps) (simp add: last_sum_precise_eq)
  have idx: "?n - 1 < length (substream_summaries s)" using assms(2,3) by simp
  have "evaluate counter_ret env s g nlayers =
          evaluate_rest counter_ret env s g (?n - 1)
            (last_sum_precise counter_ret g (hhs_precise (substream_summaries s ! (?n - 1))))"
    using assms(1) idx by (simp add: evaluate_def Let_def p)
  also have "\<dots> = evaluate_rest counter_ret env s g (?n - 1) (spec_S s g ?n (?n - 1))"
    by (simp only: base)
  also have "\<dots> = Inr (spec_S s g ?n 0)"
    using assms(1) lt assms(3) by (rule evaluate_rest_spec)
  finally show ?thesis .
qed



lemma evaluate_counter_example:
  "evaluate counter_ret ex_env2 ex_state2 (\<lambda>c. c) 2 = Inr 2 \<and>
   spec_S ex_state2 (\<lambda>c. c) (unat (2 :: size_t)) 0 = (2 :: counter_t)"
proof -
  have h1: "precise_hh ex_state2" by (simp add: ex_state2_def)
  have h2: "1 \<le> unat (2 :: size_t)" by simp
  have h3: "unat (2 :: size_t) \<le> length (substream_summaries ex_state2)"
    by (simp add: ex_state2_def)
  have v: "spec_S ex_state2 (\<lambda>c. c) (unat (2 :: size_t)) 0 = (2 :: counter_t)"
    by (simp add: spec_S.simps spec_T_def spec_parity_def ex_state2_def)
  with evaluate_counter_is_spec_recursion [OF h1 h2 h3, of ex_env2 "\<lambda>c. c"]
  show ?thesis by simp
qed

text \<open>
  Where the parity bit is 1, the factor \<^verbatim>\<open>1 - 2 * to_bool(...)\<close> handed to the product
  with \<open>g(count)\<close> is the unsigned number \<open>2^64 - 1\<close>, for every \<^verbatim>\<open>g_ret_t\<close>.
\<close>

lemma sign_factor_is_unsigned:
  assumes "to_bool h = 1"
  shows "unat (1 - 2 * to_bool h) = 2 ^ 64 - 1"
  using assms by (simp add: unsigned_minus_1_eq_mask mask_eq_exp_minus_1)

text \<open>
  Claim C1 against the code.  The claim is about every \<open>g\<close>, and the specification's
  \<open>g\<close> is real-valued.  With \<^verbatim>\<open>g_ret_t = double\<close> the factor \<open>2^64 - 1\<close> is
  converted to \<^verbatim>\<open>double\<close> and does not act as \<open>-1\<close>.  Two layers in exact mode after
  the ingests of 7 and of 4, the identity for every layer hash, \<open>g(c) = c\<close> as a
  \<^verbatim>\<open>double\<close>: layer 1 holds \<open>(7, 1)\<close> and layer 0 holds \<open>(7, 1)\<close> and \<open>(4, 1)\<close>; the
  recursion of the specification gives \<open>2 * 1 + (-1 + 1) = 2\<close>, and the code computes
  \<open>2 * 1 + ((2^64 - 1) * 1 + 1 * 1) = 2^64 + 2\<close> (\<open>2^64\<close> once rounded to a
  \<^verbatim>\<open>double\<close>).
\<close>

theorem evaluate_double_sign_factor_is_unsigned:
  "evaluate double_ret ex_env2 ex_state2 (\<lambda>c. real_of_int (sint c)) 2 = Inr (2 ^ 64 + 2) \<and>
   spec_S ex_state2 (\<lambda>c. real_of_int (sint c)) (unat (2 :: size_t)) 0 = (2 :: real)"
proof -
  have f: "unat (1 - 2 * to_bool (7 :: size_t)) = 2 ^ 64 - 1"
    using sign_factor_is_unsigned [of 7] by (simp add: to_bool_def)
  have f': "real (unat (1 - 2 * to_bool (7 :: size_t))) = 2 ^ 64 - 1"
    by (simp only: f) simp
  have z: "to_bool (4 :: size_t) = 0" by (simp add: to_bool_def)
  have c: "evaluate double_ret ex_env2 ex_state2 (\<lambda>c. real_of_int (sint c)) 2 =
             Inr (2 ^ 64 + 2)"
    using f' by (simp add: evaluate_def double_ret_def ex_state2_def last_sum_precise_def
          substream_sum_precise_def z)
  have v: "spec_S ex_state2 (\<lambda>c. real_of_int (sint c)) (unat (2 :: size_t)) 0 = (2 :: real)"
    by (simp add: spec_S.simps spec_T_def spec_parity_def ex_state2_def)
  from c v show ?thesis by (rule conjI)
qed

lemma evaluate_rest_returns:
  "i \<le> length (substream_summaries s) \<Longrightarrow> \<exists>v. evaluate_rest ret env s g i acc = Inr v"
  by (induction i arbitrary: acc) (simp_all add: Let_def)

lemma substream_sum_precise_cong:
  "hashes i = hashes' i \<Longrightarrow>
   substream_sum_precise ret hashes i g hhs = substream_sum_precise ret hashes' i g hhs"
proof -
  assume "hashes i = hashes' i"
  then have "\<And>x. hashes i x = hashes' i x" by simp
  then show ?thesis by (simp add: substream_sum_precise_def Let_def)
qed

lemma substream_sum_approx_cong:
  "hashes i = hashes' i \<Longrightarrow>
   substream_sum_approx ret env hashes i sk g hhs = substream_sum_approx ret env hashes' i sk g hhs"
proof -
  assume "hashes i = hashes' i"
  then have "\<And>x. hashes i x = hashes' i x" by simp
  then show ?thesis by (simp add: substream_sum_approx_def Let_def cong: if_cong)
qed

lemma evaluate_rest_reads:
  assumes "precise_hh s = precise_hh s'"
      and "\<forall>j<i. layer_hashes s j = layer_hashes s' j"
      and "\<forall>j<i. substream_summaries s ! j = substream_summaries s' ! j"
      and "i \<le> length (substream_summaries s)" and "i \<le> length (substream_summaries s')"
  shows "evaluate_rest ret env s g i acc = evaluate_rest ret env s' g i acc"
  using assms(2-5)
proof (induction i arbitrary: acc)
  case 0
  show ?case by simp
next
  case (Suc i)
  then have "\<And>acc. evaluate_rest ret env s g i acc = evaluate_rest ret env s' g i acc"
    by simp
  moreover have h: "layer_hashes s i = layer_hashes s' i"
    and "substream_summaries s ! i = substream_summaries s' ! i"
    using Suc.prems by simp_all
  ultimately show ?case using Suc.prems(3,4) assms(1)
    by (simp add: Let_def
          substream_sum_precise_cong [of "layer_hashes s" i "layer_hashes s'", OF h]
          substream_sum_approx_cong [of "layer_hashes s" i "layer_hashes s'", OF h])
qed

text \<open>
  Claim C10.  For \<open>1 \<le> nlayers \<le> L\<close> every access of \<open>evaluate(g, nlayers)\<close> is
  in bounds (it returns a value), and it reads the layers \<open>nlayers - 1\<close> down to 0
  only: two sketches that agree on their first \<open>nlayers\<close> layers, on the layer hashes
  below \<open>nlayers - 1\<close> and on the mode evaluate to the same result.  For
  \<open>nlayers = 0\<close> the index \<open>nlayers - 1\<close> wraps to \<open>2^64 - 1\<close> and the first
  access is out of bounds.
\<close>

theorem evaluate_reads_layers_below_nlayers:
  "(1 \<le> unat nlayers \<and> unat nlayers \<le> length (substream_summaries s)
      \<longrightarrow> (\<exists>v. evaluate ret env s g nlayers = Inr v)) \<and>
   (1 \<le> unat nlayers \<and> unat nlayers \<le> length (substream_summaries s) \<and>
    unat nlayers \<le> length (substream_summaries s') \<and>
    take (unat nlayers) (substream_summaries s) = take (unat nlayers) (substream_summaries s') \<and>
    (\<forall>j. Suc j < unat nlayers \<longrightarrow> layer_hashes s j = layer_hashes s' j) \<and>
    precise_hh s = precise_hh s'
      \<longrightarrow> evaluate ret env s g nlayers = evaluate ret env s' g nlayers) \<and>
   (length (substream_summaries s) < 2 ^ 64 \<longrightarrow> evaluate ret env s g 0 = Inl OutOfBounds)"
proof (intro conjI impI)
  assume a: "1 \<le> unat nlayers \<and> unat nlayers \<le> length (substream_summaries s)"
  then have p: "unat (nlayers - 1) = unat nlayers - 1" by (simp add: unat_pred)
  with a have "unat (nlayers - 1) < length (substream_summaries s)" by arith
  then show "\<exists>v. evaluate ret env s g nlayers = Inr v"
    by (simp add: evaluate_def Let_def evaluate_rest_returns)
next
  assume a: "1 \<le> unat nlayers \<and> unat nlayers \<le> length (substream_summaries s) \<and>
    unat nlayers \<le> length (substream_summaries s') \<and>
    take (unat nlayers) (substream_summaries s) = take (unat nlayers) (substream_summaries s') \<and>
    (\<forall>j. Suc j < unat nlayers \<longrightarrow> layer_hashes s j = layer_hashes s' j) \<and>
    precise_hh s = precise_hh s'"
  let ?n = "unat nlayers"
  from a have p: "unat (nlayers - 1) = ?n - 1" by (simp add: unat_pred)
  have nth: "substream_summaries s ! j = substream_summaries s' ! j" if "j < ?n" for j
  proof -
    have "take ?n (substream_summaries s) ! j = take ?n (substream_summaries s') ! j"
      using a by simp
    with that show ?thesis by simp
  qed
  let ?k = "unat (nlayers - 1)"
  have k: "?k < ?n" using a p by arith
  have i1: "?k < length (substream_summaries s)" "?k < length (substream_summaries s')"
    using a k by auto
  have last: "substream_summaries s ! ?k = substream_summaries s' ! ?k"
    using k by (rule nth)
  have rest: "evaluate_rest ret env s g ?k acc = evaluate_rest ret env s' g ?k acc" for acc
  proof (rule evaluate_rest_reads)
    show "precise_hh s = precise_hh s'" using a by simp
    show "\<forall>j<?k. layer_hashes s j = layer_hashes s' j" using a p by auto
    show "\<forall>j<?k. substream_summaries s ! j = substream_summaries s' ! j"
      using k by (auto intro: nth)
    show "?k \<le> length (substream_summaries s)" using i1 by simp
    show "?k \<le> length (substream_summaries s')" using i1 by simp
  qed
  have "precise_hh s = precise_hh s'" using a by simp
  then show "evaluate ret env s g nlayers = evaluate ret env s' g nlayers"
    using i1 by (simp add: evaluate_def Let_def last rest)
next
  assume "length (substream_summaries s) < 2 ^ 64"
  moreover have "unat (0 - 1 :: size_t) = 2 ^ 64 - 1" by (simp add: unsigned_minus_1_eq_mask mask_eq_exp_minus_1)
  ultimately show "evaluate ret env s g 0 = Inl OutOfBounds"
    by (simp add: evaluate_def Let_def)
qed

theorem evaluate_reads_layers_below_nlayers_witness:
  "1 \<le> unat (2 :: size_t) \<and>
   unat (2 :: size_t) \<le> length (substream_summaries ex_state2) \<and>
   unat (2 :: size_t) \<le> length (substream_summaries ex_state3) \<and>
   take (unat (2 :: size_t)) (substream_summaries ex_state2) =
     take (unat (2 :: size_t)) (substream_summaries ex_state3) \<and>
   layer_hashes ex_state2 0 = layer_hashes ex_state3 0 \<and>
   layer_hashes ex_state2 1 \<noteq> layer_hashes ex_state3 1 \<and>
   precise_hh ex_state2 = precise_hh ex_state3 \<and>
   length (substream_summaries ex_state2) < 2 ^ 64 \<and>
   evaluate counter_ret ex_env2 ex_state2 (\<lambda>c. c * c) 2 = Inr 2 \<and>
   evaluate counter_ret ex_env2 ex_state3 (\<lambda>c. c * c) 2 = Inr 2 \<and>
   evaluate counter_ret ex_env2 ex_state2 (\<lambda>c. c * c) 0 = Inl OutOfBounds"
proof -
  have h1: "1 \<le> unat (2 :: size_t) \<and>
            unat (2 :: size_t) \<le> length (substream_summaries ex_state2)"
    by (simp add: ex_state2_def)
  have h0: "layer_hashes ex_state2 0 = layer_hashes ex_state3 0"
    by (simp add: ex_state2_def ex_state3_def)
  have h0': "layer_hashes ex_state2 1 \<noteq> layer_hashes ex_state3 1"
  proof
    assume "layer_hashes ex_state2 1 = layer_hashes ex_state3 1"
    then have "layer_hashes ex_state2 1 1 = layer_hashes ex_state3 1 1" by simp
    then show False by (simp add: ex_state2_def ex_state3_def)
  qed
  have hq: "\<forall>j. Suc j < unat (2 :: size_t) \<longrightarrow> layer_hashes ex_state2 j = layer_hashes ex_state3 j"
    using h0 by (auto simp: less_Suc_eq)
  have h2: "unat (2 :: size_t) \<le> length (substream_summaries ex_state3) \<and>
     take (unat (2 :: size_t)) (substream_summaries ex_state2) =
       take (unat (2 :: size_t)) (substream_summaries ex_state3) \<and>
     precise_hh ex_state2 = precise_hh ex_state3"
    by (simp add: ex_state2_def ex_state3_def)
  have h3: "length (substream_summaries ex_state2) < 2 ^ 64"
    by (simp add: ex_state2_def)
  have v: "evaluate counter_ret ex_env2 ex_state2 (\<lambda>c. c * c) 2 = Inr 2"
    by (simp add: evaluate_def counter_ret_def ex_state2_def last_sum_precise_def
          substream_sum_precise_def to_bool_def)
  note t = evaluate_reads_layers_below_nlayers
             [where nlayers = 2 and s = ex_state2 and s' = ex_state3 and ret = counter_ret
                and env = ex_env2 and g = "\<lambda>c. c * c"]
  from t h1 h2 hq have c2: "evaluate counter_ret ex_env2 ex_state2 (\<lambda>c. c * c) 2 =
                        evaluate counter_ret ex_env2 ex_state3 (\<lambda>c. c * c) 2" by blast
  from t h3 have c3: "evaluate counter_ret ex_env2 ex_state2 (\<lambda>c. c * c) 0 = Inl OutOfBounds" by blast
  from c2 v have v3: "evaluate counter_ret ex_env2 ex_state3 (\<lambda>c. c * c) 2 = Inr 2" by simp
  from h1 h2 h0 h0' h3 v v3 c3 show ?thesis by blast
qed

section \<open>Properties of the universal sketch\<close>


lemma update_keeps_flag:
  "update env s kh = Inr s' \<Longrightarrow> is_valid_flag s' = is_valid_flag s"
  by (auto simp: update_def split: if_splits sum.splits)

lemma step_keeps_invalid:
  "step ret env s x = Inr s' \<Longrightarrow> \<not> is_valid_flag s \<Longrightarrow> \<not> is_valid_flag s'"
  by (cases x) (auto simp: invalidate_def Let_def dest: update_keeps_flag split: sum.splits if_splits)

lemma run_keeps_invalid:
  "run ret env s xs = Inr s' \<Longrightarrow> \<not> is_valid_flag s \<Longrightarrow> \<not> is_valid_flag s'"
proof (induction xs arbitrary: s)
  case Nil
  then show ?case by simp
next
  case (Cons x xs)
  then obtain s1 where s1: "step ret env s x = Inr s1" and r: "run ret env s1 xs = Inr s'"
    by (auto split: sum.splits)
  from step_keeps_invalid [OF s1 Cons.prems(2)] Cons.IH [OF r] show ?case by simp
qed

text \<open>
  Claim C9.  \<open>invalidate()\<close> on a valid sketch returns true and leaves the sketch
  invalid; on an invalid sketch it returns false and changes nothing; and after any
  sequence of operations of the interface that starts from an invalid sketch,
  \<open>is_valid()\<close> is false and \<open>invalidate()\<close> returns false.
\<close>

theorem invalidate_is_one_shot:
  "(is_valid s \<longrightarrow> fst (invalidate s) \<and> \<not> is_valid (snd (invalidate s))) \<and>
   (\<not> is_valid s \<longrightarrow> \<not> fst (invalidate s) \<and> snd (invalidate s) = s) \<and>
   (\<not> is_valid s \<and> run ret env s xs = Inr s' \<longrightarrow>
      \<not> is_valid s' \<and> \<not> fst (invalidate s'))"
  by (auto simp: is_valid_def invalidate_def dest: run_keeps_invalid)

theorem invalidate_is_one_shot_witness:
  "is_valid ex_state2 \<and> \<not> is_valid (snd (invalidate ex_state2)) \<and>
   fst (invalidate ex_state2) \<and>
   \<not> fst (invalidate (snd (invalidate ex_state2))) \<and>
   (\<exists>s'. run counter_ret ex_env2 (snd (invalidate ex_state2))
            [Update 7, IsValid, Invalidate, Evaluate (\<lambda>c. c) 2, StorageSize] = Inr s' \<and>
         \<not> is_valid s' \<and> \<not> fst (invalidate s'))"
proof -
  let ?ops = "[Update 7, IsValid, Invalidate, Evaluate (\<lambda>c. c) 2, StorageSize]"
  have v: "is_valid ex_state2" by (simp add: is_valid_def ex_state2_def)
  note t1 = invalidate_is_one_shot [of ex_state2]
  from t1 v have a: "fst (invalidate ex_state2)" "\<not> is_valid (snd (invalidate ex_state2))"
    by blast+
  have "\<exists>s'. run counter_ret ex_env2 (snd (invalidate ex_state2)) ?ops = Inr s'"
    by (simp add: invalidate_def ex_state2_def ex2_defs update_def update_layers.simps
          hh_pq_defs sqrt5_le to_bool_def is_valid_def evaluate_def last_sum_precise_def
          substream_sum_precise_def storage_size_def counter_ret_def)
  then obtain s' where r: "run counter_ret ex_env2 (snd (invalidate ex_state2)) ?ops = Inr s'" ..
  note t2 = invalidate_is_one_shot
              [where s = "snd (invalidate ex_state2)" and ret = counter_ret and env = ex_env2
                 and xs = ?ops and s' = s']
  from t2 a(2) have b: "\<not> fst (invalidate (snd (invalidate ex_state2)))" by blast
  from t2 a(2) r have c: "\<not> is_valid s' \<and> \<not> fst (invalidate s')" by blast
  from v a b r c show ?thesis by blast
qed

lemma upt_0_1: "[0..<1] = [0]"
  by (simp add: upt_rec)

lemma ex_state_approx_reached: "run_updates ex_env2 ex_sketch_approx [7, 7] = Inr ex_state_approx"
  by (simp add: ex_sketch_approx_def ex_state_approx_def new_universal_sketch_def ex2_defs
        update_def update_layers.simps update_substream_def update_hh_approx_def
        l2_squared_update_def Let_def word_sless_alt replicate_two)

lemma last_sum_approx_code:
  "last_sum_approx counter_ret env sk g hhs =
     of_nat (length (filter (\<lambda>h. h \<noteq> 0) hhs)) * g (cs_estimate env sk 0)"
proof -
  have "foldl (\<lambda>acc h. if h \<noteq> 0 then acc + c else acc) a hhs =
          a + of_nat (length (filter (\<lambda>h. h \<noteq> 0) hhs)) * c" for a and c :: "64 word"
    by (induction hhs arbitrary: a) (simp_all add: algebra_simps)
  from this [of "g (cs_estimate env sk 0)" 0] show ?thesis
    by (simp add: last_sum_approx_def counter_ret_def Let_def cong: if_cong)
qed

text \<open>
  Claim C2 against the code.  In approximate mode the loop over the last layer tests a
  slot against 0 and estimates at the key hash 0, whatever the slot holds
  (\<open>last_sum_approx_code\<close>).  After two ingests of 7 the only slot holds 7, whose
  estimate is 2, and the estimate at 0 is 0: \<open>evaluate(g, 1)\<close> with the identity for
  \<open>g\<close> returns 0, where the claim gives \<open>g(2) = 2\<close>.  The loop over the other
  layers (\<open>substream_sum_approx\<close>) estimates at the slot's value and tests against the
  hash of the empty byte string.
\<close>

theorem evaluate_approx_last_layer_estimates_at_zero:
  "heavy_hitters (substream_summaries ex_state_approx ! 0) = [7] \<and>
   empty_key_hash ex_env2 = 0 \<and>
   cs_estimate ex_env2 (sketch (substream_summaries ex_state_approx ! 0)) 7 = 2 \<and>
   cs_estimate ex_env2 (sketch (substream_summaries ex_state_approx ! 0)) 0 = 0 \<and>
   evaluate counter_ret ex_env2 ex_state_approx (\<lambda>c. c) 1 = Inr 0"
  by (simp add: ex_state_approx_def ex2_defs evaluate_def last_sum_approx_def counter_ret_def)

text \<open>
  Claim C8, as stated, fails: the constructor has no check and no failure path.  With
  \<open>k = 0\<close> and \<open>alpha = 2\<close> it returns a valid instance that stores both.
\<close>

theorem constructor_validates_counterexample:
  "is_valid ex_sketch_bad \<and>
   map num_hh (substream_summaries ex_sketch_bad) = [0] \<and>
   map hh_threshold (substream_summaries ex_sketch_bad) = [2]"
  by (simp add: ex_sketch_bad_def is_valid_def new_universal_sketch_def
        new_substream_summary_def upt_0_1)

text \<open>
  The first heavy ingest into a sketch constructed with \<open>k = 0\<close> reads the top of an
  empty heap.
\<close>

lemma update_with_zero_capacity:
  "update ex_env
     (new_universal_sketch ex_env 1 1 1 0 (1 / 2) [ex_column] ex_column True (\<lambda>i k. k) (\<lambda>i k. k))
     7 = Inl EmptyTop"
  by (simp add: new_universal_sketch_def ex_defs upt_0_1 update_def hh_pq_defs)

text \<open>
  Claim C8, amended.  For every \<open>L\<close> other than 0 and all \<open>d\<close>, \<open>w\<close>,
  \<open>k\<close> and \<open>alpha\<close>, the constructor returns a valid instance of \<open>L\<close> layers,
  each of which stores \<open>k\<close> and \<open>alpha\<close> as they were given and holds the
  Count-Sketch that \<^verbatim>\<open>count_sketch(d, w)\<close> returned.
\<close>

theorem constructor_accepts_every_k_and_alpha:
  assumes "l \<noteq> 0"
  shows "is_valid (new_universal_sketch env l t b k a sch col precise lhashes hhhashes) \<and>
         length (substream_summaries
                   (new_universal_sketch env l t b k a sch col precise lhashes hhhashes)) = unat l \<and>
         (\<forall>sub \<in> set (substream_summaries
                          (new_universal_sketch env l t b k a sch col precise lhashes hhhashes)).
            num_hh sub = k \<and> hh_threshold sub = a \<and> sketch sub = cs_new env t b \<and>
            use_precise_hh sub = precise \<and> length (heavy_hitters sub) = unat k \<and>
            hhs_precise sub = [] \<and> l2_squared_acc sub = 0)"
  by (auto simp: is_valid_def new_universal_sketch_def new_substream_summary_def)

theorem constructor_accepts_every_k_and_alpha_witness:
  "(1 :: size_t) \<noteq> 0 \<and> is_valid ex_sketch_bad \<and>
   length (substream_summaries ex_sketch_bad) = 1 \<and>
   num_hh (substream_summaries ex_sketch_bad ! 0) = 0 \<and>
   hh_threshold (substream_summaries ex_sketch_bad ! 0) = 2"
proof -
  have h: "(1 :: size_t) \<noteq> 0" by simp
  note t = constructor_accepts_every_k_and_alpha
             [OF h, of ex_env 1 1 0 2 "[ex_column]" ex_column True "\<lambda>i k. k" "\<lambda>i k. k",
              folded ex_sketch_bad_def]
  from t have v: "is_valid ex_sketch_bad"
    and n: "length (substream_summaries ex_sketch_bad) = 1" by simp_all
  from n have "substream_summaries ex_sketch_bad ! 0 \<in> set (substream_summaries ex_sketch_bad)"
    by simp
  with t have "num_hh (substream_summaries ex_sketch_bad ! 0) = 0 \<and>
               hh_threshold (substream_summaries ex_sketch_bad ! 0) = 2"
    by blast
  with h v n show ?thesis by blast
qed

lemma exp_one_gt_two: "2 < exp (1 :: real)"
proof -
  have h: "3 / 2 \<le> exp (1 / 2 :: real)" using exp_ge_add_one_self [of "1 / 2 :: real"] by simp
  have "exp (1 :: real) = exp (1 / 2) * exp (1 / 2)"
    by (simp add: exp_add [symmetric])
  moreover have "(3 / 2) * (3 / 2) \<le> exp (1 / 2 :: real) * exp (1 / 2)"
    using h by (intro mult_mono) simp_all
  ultimately show ?thesis by simp
qed

lemma ceiling_exp_one: "\<lceil>exp (1 :: real)\<rceil> = 3"
  using exp_one_gt_two exp_le by (intro ceiling_unique) simp_all

lemma ceiling_ln_two: "\<lceil>ln (2 :: real)\<rceil> = 1"
proof (rule ceiling_unique)
  show "of_int 1 - 1 < ln (2 :: real)" using ln_gt_zero [of "2 :: real"] by simp
  show "ln (2 :: real) \<le> of_int 1" using ln_le_minus_one [of "2 :: real"] by simp
qed

lemma create_parameterized_layers:
  "substream_summaries (create_parameterized env epsilon gamma k a sch col lhashes hhhashes) =
     map (\<lambda>i. new_substream_summary env (cs_error_margin_to_width env epsilon)
                 (cs_perror_to_depth env gamma) k a True (hhhashes i))
       [0..<unat (8 * sizeof_type_size env)]"
  by (simp add: create_parameterized_def new_universal_sketch_def Let_def)

lemma create_parameterized_ignores_column:
  "substream_summaries (create_parameterized env epsilon gamma k a sch col lhashes hhhashes) =
   substream_summaries (create_parameterized env epsilon gamma k a sch col' lhashes hhhashes)"
  by (simp add: create_parameterized_layers)

lemma replicate_three: "replicate 3 x = [x, x, x]"
  by (simp add: numeral_3_eq_3)

text \<open>
  Claim C4 against the code.  The number of layers is 8 times the constant
  \<^verbatim>\<open>sizeof(column.type().size)\<close>, whatever the width of the column's type; and the
  braced list passes \<open>error_margin_to_width(epsilon)\<close> where the constructor takes the
  depth and \<open>perror_to_depth(gamma)\<close> where it takes the width
  (\<open>create_parameterized_layers\<close>).  For \<open>epsilon = 1\<close>, \<open>gamma = 1/2\<close> and a
  column of 4 bytes the claim gives 32 layers of depth 1 and width 3; the code builds 64
  layers whose Count-Sketch has 3 rows of 1 counter.
\<close>

theorem create_parameterized_swaps_depth_and_width:
  "col_type_size ex_column = 4 \<and>
   cs_perror_to_depth ex_env (1 / 2) = 1 \<and>
   cs_error_margin_to_width ex_env 1 = 3 \<and>
   length (substream_summaries ex_parameterized) = 64 \<and>
   map (\<lambda>sub. counters (sketch sub)) (substream_summaries ex_parameterized) =
     replicate 64 [[0], [0], [0]]"
proof -
  have d: "cs_perror_to_depth ex_env (1 / 2) = 1"
    by (simp add: ex_env_def spec_env_def ceiling_ln_two)
  have w: "cs_error_margin_to_width ex_env 1 = 3"
    by (simp add: ex_env_def spec_env_def ceiling_exp_one)
  have n: "unat (8 * sizeof_type_size ex_env) = 64"
    by (simp add: ex_env_def spec_env_def)
  have c: "cs_new ex_env 3 1 = \<lparr>counters = [[0], [0], [0]], bucket = (\<lambda>r k. 0),
                                 sign = (\<lambda>r k. if k = 7 then 1 else - 1)\<rparr>"
    by (simp add: ex_env_def spec_env_def spec_cs_new_def replicate_three)
  show ?thesis
    by (simp add: ex_parameterized_def create_parameterized_layers d w n c ex_column_def
          new_substream_summary_def comp_def map_replicate_const)
qed

section \<open>Propagation through the layers\<close>






























end
